theory Spec2Isabelle
  imports Complex_Main "HOL-Library.Sublist"
begin

section \<open>Python values used by app.py\<close>

text \<open>
  A Python \<open>str\<close> is modelled as a \<open>string\<close> holding its UTF-8 bytes. The values stored
  in a voice dictionary under the keys the program reads are strings or \<open>None\<close>.

  \<open>lower\<close> changes the letters A to Z and leaves every other byte. Python also lowers
  letters outside ASCII; the program only compares lowered strings with \<open>female\<close>,
  \<open>jenny\<close>, \<open>aria\<close> and \<open>neural\<close>, and no character outside ASCII is lowered into
  a letter of these words followed by an ASCII character, so the comparisons agree.
\<close>

datatype pyval = PyNone | PyStr string

datatype exn = TypeError | OverflowError | IndexError | KeyError | ServiceError string

type_synonym voice = "string \<rightharpoonup> pyval"

definition dict_get :: "voice \<Rightarrow> string \<Rightarrow> pyval \<Rightarrow> pyval" where
  \<comment> \<open>\<open>v.get(key, default)\<close>\<close>
  "dict_get v k d = (case v k of None \<Rightarrow> d | Some x \<Rightarrow> x)"

definition truthy :: "pyval \<Rightarrow> bool" where
  \<comment> \<open>truth value of \<open>None\<close> and of a string\<close>
  "truthy x = (case x of PyNone \<Rightarrow> False | PyStr s \<Rightarrow> s \<noteq> [])"

definition py_or :: "pyval \<Rightarrow> pyval \<Rightarrow> pyval" where
  \<comment> \<open>\<open>x or y\<close>\<close>
  "py_or x y = (if truthy x then x else y)"

definition lower_char :: "char \<Rightarrow> char" where
  "lower_char c =
     (case map_of (zip ''ABCDEFGHIJKLMNOPQRSTUVWXYZ'' ''abcdefghijklmnopqrstuvwxyz'') c of
        None \<Rightarrow> c
      | Some d \<Rightarrow> d)"

definition lower :: "string \<Rightarrow> string" where
  \<comment> \<open>\<open>str.lower()\<close>: the letters A to Z change, every other byte stays\<close>
  "lower s = map lower_char s"

section \<open>Voice catalog filter\<close>

text \<open>
  \<^verbatim>\<open>
  def filter_voice_list(voices, prefer_lang="en-US", prefer_female=True):
      out = []
      for v in voices:
          locale = v.get("Locale", "")
          gender = (v.get("Gender", "") or "").lower()
          if prefer_lang and locale != prefer_lang:
              continue
          if prefer_female and gender != "female":
              continue
          out.append(v)
      if not out:
          out = [v for v in voices if v.get("Locale") == prefer_lang] if prefer_lang else voices
      if not out:
          out = voices
      return out
  \<close>
  \<open>prefer_lang\<close> is \<open>None\<close> or a string, so it is a \<open>pyval\<close>; the caller passes \<open>None\<close>
  for the choice "Any".
\<close>

definition gender_of :: "voice \<Rightarrow> string" where
  \<comment> \<open>\<open>(v.get("Gender", "") or "").lower()\<close>; the operand of \<open>lower\<close> is never \<open>None\<close>\<close>
  "gender_of v =
     (case py_or (dict_get v ''Gender'' (PyStr [])) (PyStr []) of
        PyStr s \<Rightarrow> lower s | PyNone \<Rightarrow> [])"

fun filter_loop :: "voice list \<Rightarrow> pyval \<Rightarrow> bool \<Rightarrow> voice list \<Rightarrow> voice list" where
  "filter_loop [] prefer_lang prefer_female out = out"
| "filter_loop (v # vs) prefer_lang prefer_female out =
     (let locale = dict_get v ''Locale'' (PyStr []);
          gender = gender_of v
      in if truthy prefer_lang \<and> locale \<noteq> prefer_lang
           then filter_loop vs prefer_lang prefer_female out
         else if prefer_female \<and> gender \<noteq> ''female''
           then filter_loop vs prefer_lang prefer_female out
         else filter_loop vs prefer_lang prefer_female (out @ [v]))"

definition filter_voice_list :: "voice list \<Rightarrow> pyval \<Rightarrow> bool \<Rightarrow> voice list" where
  "filter_voice_list voices prefer_lang prefer_female =
     (let out = filter_loop voices prefer_lang prefer_female [];
          out = (if out = []
                 then (if truthy prefer_lang
                       then filter (\<lambda>v. dict_get v ''Locale'' PyNone = prefer_lang) voices
                       else voices)
                 else out);
          out = (if out = [] then voices else out)
      in out)"

text \<open>The two passes, named as the specification names them.\<close>

definition locale_matches :: "pyval \<Rightarrow> voice \<Rightarrow> bool" where
  "locale_matches prefer_lang v =
     (truthy prefer_lang \<longrightarrow> v ''Locale'' = Some prefer_lang)"

definition gender_matches :: "bool \<Rightarrow> voice \<Rightarrow> bool" where
  "gender_matches prefer_female v =
     (prefer_female \<longrightarrow>
        (case v ''Gender'' of Some (PyStr g) \<Rightarrow> lower g = ''female'' | _ \<Rightarrow> False))"

definition primary_pass :: "voice list \<Rightarrow> pyval \<Rightarrow> bool \<Rightarrow> voice list" where
  "primary_pass voices prefer_lang prefer_female =
     filter (\<lambda>v. locale_matches prefer_lang v \<and> gender_matches prefer_female v) voices"

definition locale_pass :: "voice list \<Rightarrow> pyval \<Rightarrow> voice list" where
  "locale_pass voices prefer_lang = filter (locale_matches prefer_lang) voices"

section \<open>Voice labels\<close>

text \<open>
  \<^verbatim>\<open>
  def nice_label(v):
      sn = v.get("ShortName", "")
      locale = v.get("Locale", "")
      gender = v.get("Gender", "")
      name_part = sn.split("-")[-1] if "-" in sn else sn
      if name_part.lower().endswith("neural"):
          base = name_part[:-6]
          display = f"{base} (Neural)"
      else:
          display = name_part
      return f"{display} \<emdash> {locale} \<emdash> {gender}"
  \<close>
  where \<open>\<emdash>\<close> stands for the character U+2014, three bytes in UTF-8.
\<close>

definition em_dash :: string where
  "em_dash = [CHR 0xE2, CHR 0x80, CHR 0x94]"

fun split_char :: "char \<Rightarrow> string \<Rightarrow> string list" where
  \<comment> \<open>\<open>s.split(sep)\<close> for a separator of one character\<close>
  "split_char sep [] = [[]]"
| "split_char sep (c # cs) =
     (if c = sep then [] # split_char sep cs
      else (case split_char sep cs of
              [] \<Rightarrow> [[c]]
            | w # ws \<Rightarrow> (c # w) # ws))"

definition index_last :: "'a list \<Rightarrow> exn + 'a" where
  \<comment> \<open>\<open>xs[-1]\<close>\<close>
  "index_last xs = (if xs = [] then Inl IndexError else Inr (last xs))"

definition endswith :: "string \<Rightarrow> string \<Rightarrow> bool" where
  \<comment> \<open>\<open>s.endswith(suf)\<close>\<close>
  "endswith s suf = (length suf \<le> length s \<and> drop (length s - length suf) s = suf)"

definition drop_last6 :: "string \<Rightarrow> string" where
  \<comment> \<open>the slice \<open>s[:-6]\<close>: empty when \<open>s\<close> has fewer than six characters\<close>
  "drop_last6 s = take (length s - 6) s"

definition py_format :: "pyval \<Rightarrow> string" where
  \<comment> \<open>a value interpolated into an f-string\<close>
  "py_format x = (case x of PyNone \<Rightarrow> ''None'' | PyStr s \<Rightarrow> s)"

definition name_part_of :: "pyval \<Rightarrow> exn + string" where
  \<comment> \<open>\<open>sn.split("-")[-1] if "-" in sn else sn\<close>; the test \<open>"-" in None\<close> raises\<close>
  "name_part_of sn =
     (case sn of
        PyNone \<Rightarrow> Inl TypeError
      | PyStr s \<Rightarrow> if CHR ''-'' \<in> set s then index_last (split_char CHR ''-'' s) else Inr s)"

definition nice_label :: "voice \<Rightarrow> exn + string" where
  "nice_label v =
     (let sn = dict_get v ''ShortName'' (PyStr []);
          locale = dict_get v ''Locale'' (PyStr []);
          gender = dict_get v ''Gender'' (PyStr [])
      in case name_part_of sn of
           Inl e \<Rightarrow> Inl e
         | Inr name_part \<Rightarrow>
             let display = (if endswith (lower name_part) ''neural''
                            then drop_last6 name_part @ '' (Neural)''
                            else name_part)
             in Inr (display @ '' '' @ em_dash @ '' '' @ py_format locale
                       @ '' '' @ em_dash @ '' '' @ py_format gender))"

text \<open>
  The label as the specification words it: the segment of the short name after the last
  separator, with a trailing \<open>Neural\<close>, compared as it is written, replaced by
  \<open> (Neural)\<close>.
\<close>

definition last_segment :: "string \<Rightarrow> string" where
  "last_segment s = rev (takeWhile (\<lambda>c. c \<noteq> CHR ''-'') (rev s))"

definition labelFor :: "string \<Rightarrow> string \<Rightarrow> string \<Rightarrow> string" where
  "labelFor shortName locale gender =
     (let seg = last_segment shortName;
          displayName = (if suffix ''Neural'' seg
                         then take (length seg - 6) seg @ '' (Neural)'' else seg)
      in displayName @ '' '' @ em_dash @ '' '' @ locale @ '' '' @ em_dash @ '' '' @ gender)"

text \<open>The label the program computes, in the same words, the suffix compared without case.\<close>

definition label_nocase :: "string \<Rightarrow> string \<Rightarrow> string \<Rightarrow> string" where
  "label_nocase shortName locale gender =
     (let seg = last_segment shortName;
          displayName = (if suffix ''neural'' (lower seg)
                         then take (length seg - 6) seg @ '' (Neural)'' else seg)
      in displayName @ '' '' @ em_dash @ '' '' @ locale @ '' '' @ em_dash @ '' '' @ gender)"

section \<open>Default voice\<close>

text \<open>
  \<^verbatim>\<open>
  voice_map = {nice_label(v): v for v in filtered}

  default_label = None
  for key in voice_map.keys():
      if "jenny" in key.lower():
          default_label = key
          break
  if default_label is None:
      for key in voice_map.keys():
          if "aria" in key.lower():
              default_label = key
              break
  if default_label is None:
      default_label = list(voice_map.keys())[0]
  \<close>
  A dictionary keeps its keys in the order of their first insertion, so \<open>voice_map\<close> is an
  association list with distinct keys.
\<close>

type_synonym voice_map = "(string \<times> voice) list"

fun dict_set :: "voice_map \<Rightarrow> string \<Rightarrow> voice \<Rightarrow> voice_map" where
  \<comment> \<open>\<open>d[k] = v\<close>: a key already there keeps its place\<close>
  "dict_set [] k v = [(k, v)]"
| "dict_set ((k', v') # d) k v = (if k' = k then (k, v) # d else (k', v') # dict_set d k v)"

fun build_voice_map :: "voice list \<Rightarrow> voice_map \<Rightarrow> exn + voice_map" where
  "build_voice_map [] d = Inr d"
| "build_voice_map (v # vs) d =
     (case nice_label v of
        Inl e \<Rightarrow> Inl e
      | Inr label \<Rightarrow> build_voice_map vs (dict_set d label v))"

fun str_contains :: "string \<Rightarrow> string \<Rightarrow> bool" where
  \<comment> \<open>\<open>sub in s\<close>\<close>
  "str_contains sub [] = (sub = [])"
| "str_contains sub (c # cs) = (prefix sub (c # cs) \<or> str_contains sub cs)"

fun first_key_containing :: "string \<Rightarrow> string list \<Rightarrow> string option" where
  \<comment> \<open>the loop with \<open>break\<close>: \<open>None\<close> when no key passes the test\<close>
  "first_key_containing name [] = None"
| "first_key_containing name (key # keys) =
     (if str_contains name (lower key) then Some key else first_key_containing name keys)"

definition default_label :: "voice_map \<Rightarrow> exn + string" where
  "default_label vm =
     (let keys = map fst vm in
      case first_key_containing ''jenny'' keys of
        Some key \<Rightarrow> Inr key
      | None \<Rightarrow>
          (case first_key_containing ''aria'' keys of
             Some key \<Rightarrow> Inr key
           | None \<Rightarrow> (case keys of [] \<Rightarrow> Inl IndexError | key # _ \<Rightarrow> Inr key)))"

text \<open>What "the first label with property \<open>P\<close>, in iteration order" means.\<close>

definition is_first_with :: "(string \<Rightarrow> bool) \<Rightarrow> string list \<Rightarrow> string \<Rightarrow> bool" where
  "is_first_with P keys l =
     (\<exists>i < length keys. keys ! i = l \<and> P l \<and> (\<forall>j < i. \<not> P (keys ! j)))"

definition mentions :: "string \<Rightarrow> string \<Rightarrow> bool" where
  \<comment> \<open>the lowercase form of the label contains the name\<close>
  "mentions name l = (\<exists>pre post. lower l = pre @ name @ post)"

section \<open>Floating-point numbers\<close>

text \<open>
  A Python \<open>float\<close> is an IEEE 754 binary64 number. A finite one is modelled by the
  rational number it denotes, and every arithmetic operation returns the exact result
  rounded to the nearest binary64 number, ties to the even significand
  (\<open>to_binary64\<close>). A significand has 53 bits, the least exponent is \<open>-1022\<close>
  (subnormal numbers share the spacing \<open>2 powi - 1074\<close>), and a result beyond the
  largest finite number is an infinity, here \<open>None\<close>.
\<close>

fun bitlen :: "nat \<Rightarrow> nat" where
  \<comment> \<open>the number of binary digits of \<open>n\<close>\<close>
  "bitlen n = (if n = 0 then 0 else Suc (bitlen (n div 2)))"

declare bitlen.simps [simp del]

definition exponent_of :: "rat \<Rightarrow> int" where
  \<comment> \<open>for \<open>x \<noteq> 0\<close>, the \<open>e\<close> with \<open>2 powi e \<le> \<bar>x\<bar> < 2 powi (e + 1)\<close>\<close>
  "exponent_of x =
     (let a = \<bar>x\<bar> in
      if 1 \<le> a then int (bitlen (nat \<lfloor>a\<rfloor>)) - 1
      else - int (bitlen (nat (\<lceil>1 / a\<rceil> - 1))))"

definition round_half_even :: "rat \<Rightarrow> int" where
  \<comment> \<open>the nearest integer, a tie going to the even one: Python's \<open>round(x)\<close>\<close>
  "round_half_even x =
     (let f = \<lfloor>x\<rfloor>; d = x - of_int f in
      if d < 1 / 2 then f
      else if 1 / 2 < d then f + 1
      else if even f then f else f + 1)"

definition max_float :: rat where
  "max_float = (2 ^ 53 - 1) * 2 ^ 971"

definition to_binary64 :: "rat \<Rightarrow> rat option" where
  "to_binary64 x =
     (if x = 0 then Some 0
      else let e = max (exponent_of x) (- 1022);
               q = 2 powi (e - 52);
               r = of_int (round_half_even (x / q)) * q
           in if max_float < \<bar>r\<bar> then None else Some r)"

section \<open>Parameter mapper\<close>

text \<open>
  \<^verbatim>\<open>
  def pct_to_edge_rate(pct: int) -> str:
      val = int(round(((pct - 175) / 75) * 50))
      val = max(-50, min(50, val))
      return f"{val:+d}%"

  def volume_to_edge(vol: float) -> str:
      val = int(round((vol - 1.0) * 50))
      val = max(-50, min(0, val))
      return f"{val:+d}%"
  \<close>
  The division of two integers and the product are binary64 operations. \<open>round\<close> of an
  infinity raises \<open>OverflowError\<close>, as does a quotient of integers too large for a float;
  \<open>round\<close> of a finite float is an integer, which \<open>int\<close> leaves as it is.
\<close>

fun decimal :: "nat \<Rightarrow> string" where
  "decimal n =
     (if n < 10 then [''0123456789'' ! n]
      else decimal (n div 10) @ [''0123456789'' ! (n mod 10)])"

declare decimal.simps [simp del]

definition signed_decimal :: "int \<Rightarrow> string" where
  \<comment> \<open>the format \<open>+d\<close>: the sign always, then the digits\<close>
  "signed_decimal n = (if 0 \<le> n then CHR ''+'' else CHR ''-'') # decimal (nat \<bar>n\<bar>)"

definition signed_percent :: "int \<Rightarrow> string" where
  \<comment> \<open>\<open>f"{val:+d}%"\<close>\<close>
  "signed_percent val = signed_decimal val @ ''%''"

definition rate_product :: "int \<Rightarrow> rat option" where
  \<comment> \<open>\<open>((pct - 175) / 75) * 50\<close>\<close>
  "rate_product pct =
     (case to_binary64 (of_int (pct - 175) / 75) of
        None \<Rightarrow> None
      | Some q \<Rightarrow> to_binary64 (q * 50))"

definition pct_to_edge_rate :: "int \<Rightarrow> exn + string" where
  "pct_to_edge_rate pct =
     (case rate_product pct of
        None \<Rightarrow> Inl OverflowError
      | Some p \<Rightarrow>
          let val = round_half_even p;
              val = max (- 50) (min 50 val)
          in Inr (signed_percent val))"

definition volume_product :: "rat \<Rightarrow> rat option" where
  \<comment> \<open>\<open>(vol - 1.0) * 50\<close>\<close>
  "volume_product vol =
     (case to_binary64 (vol - 1) of
        None \<Rightarrow> None
      | Some d \<Rightarrow> to_binary64 (d * 50))"

definition volume_to_edge :: "rat \<Rightarrow> exn + string" where
  "volume_to_edge vol =
     (case volume_product vol of
        None \<Rightarrow> Inl OverflowError
      | Some p \<Rightarrow>
          let val = round_half_even p;
              val = max (- 50) (min 0 val)
          in Inr (signed_percent val))"

text \<open>
  The rate mapper as the specification words it, in exact arithmetic: the slider value is
  mapped linearly, rounded, clamped and written with its sign.
\<close>

definition rateToServiceFormat :: "int \<Rightarrow> string" where
  "rateToServiceFormat sliderValue =
     signed_percent
       (max (- 50) (min 50 (round_half_even (((of_int sliderValue - 175) / 75) * 50))))"

text \<open>The volume mapper as the specification words it, in exact arithmetic as well.\<close>

definition volumeToServiceFormat :: "rat \<Rightarrow> string" where
  "volumeToServiceFormat volumeFraction =
     signed_percent (max (- 50) (min 0 (round_half_even ((volumeFraction - 1) * 50))))"

section \<open>Generate action\<close>

text \<open>
  \<^verbatim>\<open>
  if "busy" not in st.session_state:
      st.session_state.busy = False

  generate = st.button("Generate Audio", type="primary", use_container_width=True,
                       disabled=st.session_state.busy)

  if generate:
      if not text.strip():
          st.warning("Please enter some text.")
          st.stop()

      st.session_state.busy = True
      try:
          v = voice_map[voice_choice]
          voice_short = v.get("ShortName")
          rate_str = pct_to_edge_rate(rate_slider)
          volume_str = volume_to_edge(volume)
          with tempfile.TemporaryDirectory() as tmp:
              out_path = Path(tmp) / "out.mp3"
              with st.spinner("Generating audio (Edge Neural TTS)..."):
                  run_async(synthesize_edge_tts(text, voice_short, rate_str, volume_str, out_path))
              audio_bytes = out_path.read_bytes()
              if len(audio_bytes) < 2000:
                  st.error("Generated audio is empty. Try a different voice.")
                  st.stop()
              st.success("Audio generated successfully")
              st.audio(audio_bytes, format="audio/mp3")
              st.download_button("Download Audio", data=audio_bytes, file_name=filename,
                                 mime="audio/mpeg", use_container_width=True)
      finally:
          st.session_state.busy = False
  \<close>
  One run of the script is a function from the session state and the values of the
  widgets to the new session state, the way the run ended and the effects it had, in
  order.

  \<open>st.stop()\<close> asks Streamlit to stop the run and raises Streamlit's \<open>StopException\<close>.
  The request stays pending: from then on every call into Streamlit raises the same
  exception before it does anything, and an assignment to \<open>st.session_state\<close> is such a
  call. So a \<open>finally\<close> block entered after \<open>st.stop()\<close> does run, but an assignment to
  the session state in it raises again and stores nothing. In this script no widget or
  message call follows a \<open>st.stop()\<close>; the assignment in the \<open>finally\<close> block does.

  The text of the text area is a list of Unicode code points, since \<open>strip\<close> removes
  Unicode white space. What lies outside the program is a parameter, the environment:
  whether the temporary directory can be made, and the synthesis service, which for
  the arguments of the call tells what ends up in \<open>out.mp3\<close> and is read back, or the
  exception that the call or the reading raises.
\<close>

type_synonym utext = "nat list"

type_synonym bytes = "char list"

type_synonym service = "utext \<Rightarrow> pyval \<Rightarrow> string \<Rightarrow> string \<Rightarrow> exn + bytes"

record environment =
  tempdir_error :: "exn option"
  synthesize :: service

record inputs =
  text_area :: utext
  voice_choice :: string
  rate_slider :: int
  volume :: rat
  filename :: string
  pressed :: bool

datatype event =
    Warning string
  | Error string
  | Success string
  | Synthesize utext pyval string string
  | Audio bytes
  | DownloadButton bytes string

datatype outcome = Completed | Stopped | Raised exn

text \<open>Every effect is recorded with the value the busy flag has when it happens.\<close>

record run_state =
  busy :: bool
  stop_requested :: bool
  trace :: "(bool \<times> event) list"

definition emit :: "event \<Rightarrow> run_state \<Rightarrow> run_state" where
  "emit ev s = s\<lparr>trace := trace s @ [(busy s, ev)]\<rparr>"

definition st_stop :: "run_state \<Rightarrow> outcome \<times> run_state" where
  \<comment> \<open>\<open>st.stop()\<close>\<close>
  "st_stop s = (Stopped, s\<lparr>stop_requested := True\<rparr>)"

definition set_busy :: "bool \<Rightarrow> run_state \<Rightarrow> outcome \<times> run_state" where
  \<comment> \<open>\<open>st.session_state.busy = b\<close>: \<open>Completed\<close> when the value is stored\<close>
  "set_busy b s = (if stop_requested s then (Stopped, s) else (Completed, s\<lparr>busy := b\<rparr>))"

definition isspace :: "nat \<Rightarrow> bool" where
  \<comment> \<open>the code points that \<open>str.strip()\<close> removes\<close>
  "isspace c =
     ((0x09 \<le> c \<and> c \<le> 0x0D) \<or> (0x1C \<le> c \<and> c \<le> 0x20) \<or> c = 0x85 \<or> c = 0xA0
      \<or> c = 0x1680 \<or> (0x2000 \<le> c \<and> c \<le> 0x200A) \<or> c = 0x2028 \<or> c = 0x2029
      \<or> c = 0x202F \<or> c = 0x205F \<or> c = 0x3000)"

definition strip :: "utext \<Rightarrow> utext" where
  "strip s = rev (dropWhile isspace (rev (dropWhile isspace s)))"

definition voice_map_lookup :: "voice_map \<Rightarrow> string \<Rightarrow> exn + voice" where
  \<comment> \<open>\<open>voice_map[voice_choice]\<close>\<close>
  "voice_map_lookup vm k = (case map_of vm k of None \<Rightarrow> Inl KeyError | Some v \<Rightarrow> Inr v)"

definition after_synthesis :: "inputs \<Rightarrow> bytes \<Rightarrow> run_state \<Rightarrow> outcome \<times> run_state" where
  \<comment> \<open>from the size check to the download button\<close>
  "after_synthesis inp audio_bytes s =
     (if length audio_bytes < 2000
      then st_stop (emit (Error ''Generated audio is empty. Try a different voice.'') s)
      else (Completed,
            emit (DownloadButton audio_bytes (filename inp))
              (emit (Audio audio_bytes)
                (emit (Success ''Audio generated successfully'') s))))"

definition try_body :: "environment \<Rightarrow> voice_map \<Rightarrow> inputs \<Rightarrow> run_state \<Rightarrow> outcome \<times> run_state" where
  \<comment> \<open>the body of the \<open>try\<close>; an exception ends it where it is raised\<close>
  "try_body env vm inp s =
     (case voice_map_lookup vm (voice_choice inp) of
        Inl e \<Rightarrow> (Raised e, s)
      | Inr v \<Rightarrow>
          let voice_short = dict_get v ''ShortName'' PyNone in
          (case pct_to_edge_rate (rate_slider inp) of
             Inl e \<Rightarrow> (Raised e, s)
           | Inr rate_str \<Rightarrow>
               (case volume_to_edge (volume inp) of
                  Inl e \<Rightarrow> (Raised e, s)
                | Inr volume_str \<Rightarrow>
                    (case tempdir_error env of
                       Some e \<Rightarrow> (Raised e, s)
                     | None \<Rightarrow>
                         let s = emit (Synthesize (text_area inp) voice_short rate_str volume_str) s
                         in (case synthesize env (text_area inp) voice_short rate_str volume_str of
                               Inl e \<Rightarrow> (Raised e, s)
                             | Inr audio_bytes \<Rightarrow> after_synthesis inp audio_bytes s)))))"

definition try_finally ::
  "(run_state \<Rightarrow> outcome \<times> run_state) \<Rightarrow> (run_state \<Rightarrow> outcome \<times> run_state) \<Rightarrow> run_state
     \<Rightarrow> outcome \<times> run_state" where
  \<comment> \<open>\<open>try: body finally: final\<close>: however the body ends, the final block runs; when the
      final block raises, the run ends with its exception, else the way the body ended\<close>
  "try_finally body final s =
     (let (out, s1) = body s;
          (final_out, s2) = final s1
      in (if final_out = Completed then out else final_out, s2))"

definition generate_action :: "environment \<Rightarrow> voice_map \<Rightarrow> inputs \<Rightarrow> run_state \<Rightarrow> outcome \<times> run_state" where
  \<comment> \<open>the block under \<open>if generate\<close>\<close>
  "generate_action env vm inp s =
     (if strip (text_area inp) = []
      then st_stop (emit (Warning ''Please enter some text.'') s)
      else
        (case set_busy True s of
           (Completed, s) \<Rightarrow> try_finally (try_body env vm inp) (set_busy False) s
         | (out, s) \<Rightarrow> (out, s)))"

definition run_script :: "environment \<Rightarrow> voice_map \<Rightarrow> inputs \<Rightarrow> bool option \<Rightarrow> outcome \<times> run_state" where
  \<comment> \<open>the session state holds the flag, or does not hold it yet; a disabled button is
      never pressed; the new session state holds the flag of the final state\<close>
  "run_script env vm inp session =
     (let s = \<lparr>busy = (case session of None \<Rightarrow> False | Some b \<Rightarrow> b),
               stop_requested = False, trace = []\<rparr>;
          generate = (pressed inp \<and> \<not> busy s)
      in if generate then generate_action env vm inp s else (Completed, s))"

fun is_synthesize :: "event \<Rightarrow> bool" where
  "is_synthesize (Synthesize t v r vol) = True"
| "is_synthesize ev = False"

definition synthesis_calls :: "(bool \<times> event) list \<Rightarrow> (bool \<times> event) list" where
  \<comment> \<open>the outbound calls among the effects\<close>
  "synthesis_calls tr = filter (\<lambda>(b, ev). is_synthesize ev) tr"

section \<open>Example data\<close>

definition jenny :: voice where
  "jenny = [''ShortName'' \<mapsto> PyStr ''en-US-JennyNeural'', ''Locale'' \<mapsto> PyStr ''en-US'',
            ''Gender'' \<mapsto> PyStr ''Female'']"

definition guy :: voice where
  "guy = [''ShortName'' \<mapsto> PyStr ''en-US-GuyNeural'', ''Locale'' \<mapsto> PyStr ''en-US'',
          ''Gender'' \<mapsto> PyStr ''Male'']"

definition aria :: voice where
  "aria = [''ShortName'' \<mapsto> PyStr ''en-US-AriaNeural'', ''Locale'' \<mapsto> PyStr ''en-US'',
           ''Gender'' \<mapsto> PyStr ''FEMALE'']"

definition katja :: voice where
  "katja = [''ShortName'' \<mapsto> PyStr ''de-DE-KatjaNeural'', ''Locale'' \<mapsto> PyStr ''de-DE'',
            ''Gender'' \<mapsto> PyStr ''Female'']"

definition conrad :: voice where
  "conrad = [''ShortName'' \<mapsto> PyStr ''de-DE-ConradNeural'', ''Locale'' \<mapsto> PyStr ''de-DE'',
             ''Gender'' \<mapsto> PyStr ''Male'']"

definition jenny_upper :: voice where
  "jenny_upper = [''ShortName'' \<mapsto> PyStr ''en-US-JennyNEURAL'', ''Locale'' \<mapsto> PyStr ''en-US'',
                  ''Gender'' \<mapsto> PyStr ''Female'']"

definition example_voice_map :: voice_map where
  "example_voice_map =
     [(''Guy (Neural) '' @ em_dash @ '' en-US '' @ em_dash @ '' Male'', guy),
      (''Aria (Neural) '' @ em_dash @ '' en-US '' @ em_dash @ '' FEMALE'', aria),
      (''Jenny (Neural) '' @ em_dash @ '' en-US '' @ em_dash @ '' Female'', jenny)]"

definition jenny_label :: string where
  "jenny_label = ''Jenny (Neural) '' @ em_dash @ '' en-US '' @ em_dash @ '' Female''"

definition hello_inputs :: inputs where
  "hello_inputs =
     \<lparr>text_area = [72, 101, 108, 108, 111, 32, 119, 111, 114, 108, 100],
      voice_choice = jenny_label, rate_slider = 180, volume = 1,
      filename = ''training_audio.mp3'', pressed = True\<rparr>"

definition blank_inputs :: inputs where
  "blank_inputs = hello_inputs\<lparr>text_area := [32, 32, 32]\<rparr>"

definition good_service :: environment where
  "good_service =
     \<lparr>tempdir_error = None, synthesize = (\<lambda>t v r vol. Inr (replicate 2000 CHR ''a''))\<rparr>"

definition short_service :: environment where
  "short_service =
     \<lparr>tempdir_error = None, synthesize = (\<lambda>t v r vol. Inr (replicate 1999 CHR ''a''))\<rparr>"

definition failing_service :: environment where
  "failing_service =
     \<lparr>tempdir_error = None,
      synthesize = (\<lambda>t v r vol. Inl (ServiceError ''connection refused''))\<rparr>"

section \<open>Properties of the filter\<close>

lemma truthy_simps [simp]:
  "truthy PyNone = False" "truthy (PyStr s) = (s \<noteq> [])"
  by (simp_all add: truthy_def)

lemma lower_Nil [simp]: "lower [] = []"
  by (simp add: lower_def)

lemma locale_test:
  "truthy p \<Longrightarrow> (dict_get v ''Locale'' (PyStr []) = p) = (v ''Locale'' = Some p)"
  by (cases p) (auto simp: dict_get_def split: option.splits)

lemma locale_test_None:
  "truthy p \<Longrightarrow> (dict_get v ''Locale'' PyNone = p) = (v ''Locale'' = Some p)"
  by (cases p) (auto simp: dict_get_def split: option.splits)

lemma gender_test:
  "(gender_of v = ''female'') =
     (case v ''Gender'' of Some (PyStr g) \<Rightarrow> lower g = ''female'' | _ \<Rightarrow> False)"
  by (auto simp: gender_of_def dict_get_def py_or_def split: option.splits pyval.splits)

lemma filter_loop_step:
  "filter_loop (v # vs) p f out =
     filter_loop vs p f (if locale_matches p v \<and> gender_matches f v then out @ [v] else out)"
proof -
  have "(truthy p \<and> dict_get v ''Locale'' (PyStr []) \<noteq> p) = (\<not> locale_matches p v)"
    using locale_test [of p v] by (auto simp: locale_matches_def)
  moreover have "(f \<and> gender_of v \<noteq> ''female'') = (\<not> gender_matches f v)"
    using gender_test [of v] by (auto simp: gender_matches_def)
  ultimately show ?thesis
    by (simp add: Let_def)
qed

lemma filter_loop_eq:
  "filter_loop vs p f out = out @ primary_pass vs p f"
proof (induction vs arbitrary: out)
  case Nil
  show ?case by (simp add: primary_pass_def)
next
  case (Cons v vs)
  show ?case
    unfolding filter_loop_step Cons.IH by (simp add: primary_pass_def)
qed

lemma fallback_eq:
  "(if truthy p then filter (\<lambda>v. dict_get v ''Locale'' PyNone = p) vs else vs)
     = locale_pass vs p"
  by (auto simp: locale_pass_def locale_matches_def locale_test_None cong: filter_cong)

lemma filter_voice_list_eq:
  "filter_voice_list vs p f =
     (if primary_pass vs p f \<noteq> [] then primary_pass vs p f
      else if locale_pass vs p \<noteq> [] then locale_pass vs p
      else vs)"
  unfolding filter_voice_list_def Let_def filter_loop_eq fallback_eq by simp


text \<open>
  C10: with no preferred locale and no preference for a female voice, the filter returns
  the catalog it was given, in the same order.
\<close>

theorem filter_voice_list_no_preference:
  "filter_voice_list voices PyNone False = voices"
proof -
  have "primary_pass voices PyNone False = voices"
    by (simp add: primary_pass_def locale_matches_def gender_matches_def)
  then show ?thesis
    by (simp add: filter_voice_list_eq locale_pass_def)
qed

theorem filter_voice_list_no_preference_witness:
  "filter_voice_list [guy, katja] PyNone False = [guy, katja]"
  using filter_voice_list_no_preference [of "[guy, katja]"] by simp

text \<open>
  C3: a non-empty catalog never gives an empty result, whatever the preferred locale
  (also none) and the gender preference: the result is the primary pass (locale and
  gender) when that is not empty, else the entries of the locale alone, else the whole
  catalog.
\<close>

theorem filter_voice_list_nonempty:
  assumes "voices \<noteq> []"
  shows "filter_voice_list voices prefer_lang prefer_female \<noteq> []
         \<and> filter_voice_list voices prefer_lang prefer_female =
             (if primary_pass voices prefer_lang prefer_female \<noteq> []
                then primary_pass voices prefer_lang prefer_female
              else if locale_pass voices prefer_lang \<noteq> []
                then locale_pass voices prefer_lang
              else voices)"
  using assms by (simp add: filter_voice_list_eq)

theorem filter_voice_list_nonempty_witness:
  "[guy, conrad] \<noteq> []
   \<and> filter_voice_list [guy, conrad] (PyStr ''de-DE'') True = [conrad]
   \<and> filter_voice_list [guy, conrad] (PyStr ''fr-FR'') True = [guy, conrad]
   \<and> filter_voice_list [guy, katja] PyNone True = [katja]"
proof -
  have ne: "guy \<noteq> conrad" "guy \<noteq> katja"
    by (auto simp: guy_def conrad_def katja_def fun_eq_iff)
  have 1: "filter_voice_list [guy, conrad] (PyStr ''de-DE'') True = [conrad]"
    using filter_voice_list_nonempty [of "[guy, conrad]" "PyStr ''de-DE''" True]
    by (simp add: primary_pass_def locale_pass_def locale_matches_def gender_matches_def
        guy_def conrad_def lower_def lower_char_def)
  have 2: "filter_voice_list [guy, conrad] (PyStr ''fr-FR'') True = [guy, conrad]"
    using filter_voice_list_nonempty [of "[guy, conrad]" "PyStr ''fr-FR''" True]
    by (simp add: primary_pass_def locale_pass_def locale_matches_def gender_matches_def
        guy_def conrad_def lower_def lower_char_def)
  have 3: "filter_voice_list [guy, katja] PyNone True = [katja]"
    using filter_voice_list_nonempty [of "[guy, katja]" PyNone True]
    by (simp add: primary_pass_def locale_pass_def locale_matches_def gender_matches_def
        guy_def katja_def lower_def lower_char_def)
  from 1 2 3 show ?thesis by simp
qed

text \<open>
  C4: when the catalog has an entry of locale \<open>en-US\<close> whose gender is \<open>female\<close> in any
  case, the filter called with \<open>en-US\<close> and the female preference returns exactly these
  entries, in the order of the catalog.
\<close>

theorem filter_voice_list_en_us_female:
  assumes "\<exists>v \<in> set voices. \<exists>g. v ''Locale'' = Some (PyStr ''en-US'')
             \<and> v ''Gender'' = Some (PyStr g) \<and> lower g = ''female''"
  shows "filter_voice_list voices (PyStr ''en-US'') True =
           filter (\<lambda>v. \<exists>g. v ''Locale'' = Some (PyStr ''en-US'')
                     \<and> v ''Gender'' = Some (PyStr g) \<and> lower g = ''female'') voices"
proof -
  have eq: "(\<lambda>v. locale_matches (PyStr ''en-US'') v \<and> gender_matches True v) =
            (\<lambda>v. \<exists>g. v ''Locale'' = Some (PyStr ''en-US'')
                     \<and> v ''Gender'' = Some (PyStr g) \<and> lower g = ''female'')"
    by (auto simp: fun_eq_iff locale_matches_def gender_matches_def
        split: option.splits pyval.splits)
  have "primary_pass voices (PyStr ''en-US'') True \<noteq> []"
    using assms unfolding primary_pass_def eq by (auto simp: filter_empty_conv)
  then show ?thesis
    by (simp add: filter_voice_list_eq) (simp add: primary_pass_def eq)
qed

theorem filter_voice_list_en_us_female_witness:
  "filter_voice_list [guy, jenny, katja, aria] (PyStr ''en-US'') True = [jenny, aria]"
proof -
  have "\<exists>v \<in> set [guy, jenny, katja, aria]. \<exists>g. v ''Locale'' = Some (PyStr ''en-US'')
          \<and> v ''Gender'' = Some (PyStr g) \<and> lower g = ''female''"
    by (simp add: jenny_def lower_def lower_char_def)
  from filter_voice_list_en_us_female [OF this] show ?thesis
    by (simp add: guy_def jenny_def katja_def aria_def lower_def lower_char_def)
qed


section \<open>Properties of the labels\<close>

lemma split_char_no_sep: "sep \<notin> set s \<Longrightarrow> split_char sep s = [s]"
  by (induction s) auto

lemma split_char_not_Nil: "split_char sep s \<noteq> []"
  by (induction s) (auto split: list.splits)

lemma split_char_sep: "sep \<in> set s \<Longrightarrow> tl (split_char sep s) \<noteq> []"
proof (induction s)
  case Nil
  then show ?case by simp
next
  case (Cons c cs)
  show ?case
  proof (cases "c = sep")
    case True
    then show ?thesis by (simp add: split_char_not_Nil)
  next
    case False
    with Cons.prems have "sep \<in> set cs" by auto
    with Cons.IH have "tl (split_char sep cs) \<noteq> []" by simp
    with False show ?thesis by (auto split: list.splits)
  qed
qed

lemma last_segment_Cons:
  "last_segment (c # cs) =
     (if CHR ''-'' \<in> set cs then last_segment cs
      else if c = CHR ''-'' then cs else c # cs)"
  by (auto simp: last_segment_def takeWhile_append)

lemma last_split_char: "last (split_char CHR ''-'' s) = last_segment s"
proof (induction s)
  case Nil
  show ?case by (simp add: last_segment_def)
next
  case (Cons c cs)
  show ?case
  proof (cases "CHR ''-'' \<in> set cs")
    case True
    from split_char_sep [OF True] obtain w w' ws where
      sp: "split_char CHR ''-'' cs = w # w' # ws"
      by (cases "split_char CHR ''-'' cs"; cases "tl (split_char CHR ''-'' cs)") auto
    with Cons.IH True show ?thesis
      by (simp add: last_segment_Cons)
  next
    case False
    then show ?thesis
      by (simp add: last_segment_Cons split_char_no_sep)
  qed
qed

lemma endswith_suffix: "endswith s suf = suffix suf s"
proof
  assume "endswith s suf"
  then have "s = take (length s - length suf) s @ suf"
    by (metis append_take_drop_id endswith_def)
  then show "suffix suf s" by (metis suffixI)
next
  assume "suffix suf s"
  then obtain zs where "s = zs @ suf" by (auto simp: suffix_def)
  then show "endswith s suf" by (simp add: endswith_def)
qed

lemma name_part_of_str: "name_part_of (PyStr s) = Inr (last_segment s)"
proof (cases "CHR ''-'' \<in> set s")
  case True
  then show ?thesis
    by (simp add: name_part_of_def index_last_def split_char_not_Nil last_split_char)
next
  case False
  then have "takeWhile (\<lambda>c. c \<noteq> CHR ''-'') (rev s) = rev s"
    by auto
  then have "last_segment s = s"
    unfolding last_segment_def by (simp only: rev_rev_ident)
  with False show ?thesis by (simp add: name_part_of_def)
qed

text \<open>
  C5, the claim as written: the suffix \<open>Neural\<close> is compared as it is written. The program
  lowers the segment first, so a short name ending in \<open>NEURAL\<close> gets the marker as well.
\<close>

theorem nice_label_case_counterexample:
  "nice_label jenny_upper \<noteq> Inr (labelFor ''en-US-JennyNEURAL'' ''en-US'' ''Female'')"
  by (simp add: nice_label_def jenny_upper_def dict_get_def name_part_of_def index_last_def
      endswith_def lower_def lower_char_def drop_last6_def py_format_def Let_def
      labelFor_def last_segment_def suffix_to_prefix)

lemma nice_label_strings:
  assumes "dict_get v ''ShortName'' (PyStr []) = PyStr sn"
    and "dict_get v ''Locale'' (PyStr []) = PyStr loc"
    and "dict_get v ''Gender'' (PyStr []) = PyStr g"
  shows "nice_label v = Inr (label_nocase sn loc g)"
  using assms
  by (simp add: nice_label_def label_nocase_def name_part_of_str Let_def endswith_suffix
      drop_last6_def py_format_def)

text \<open>
  C5, amended: for a voice whose short name, locale and gender are strings, the label is
  the display name, the locale and the gender joined by dashes, where the display name is
  the segment of the short name after the last \<open>-\<close>, and a segment whose lowercase form
  ends with \<open>neural\<close> loses its last six characters and gets \<open> (Neural)\<close> appended; the
  short name \<open>en-US-JennyNeural\<close> with locale \<open>en-US\<close> and gender \<open>Female\<close> gives
  \<open>Jenny (Neural) \<emdash> en-US \<emdash> Female\<close>.
\<close>

theorem nice_label_format:
  "(\<forall>v sn loc g.
      dict_get v ''ShortName'' (PyStr []) = PyStr sn
      \<and> dict_get v ''Locale'' (PyStr []) = PyStr loc
      \<and> dict_get v ''Gender'' (PyStr []) = PyStr g
      \<longrightarrow> nice_label v = Inr (label_nocase sn loc g))
   \<and> nice_label [''ShortName'' \<mapsto> PyStr ''en-US-JennyNeural'', ''Locale'' \<mapsto> PyStr ''en-US'',
                  ''Gender'' \<mapsto> PyStr ''Female'']
       = Inr (''Jenny (Neural) '' @ em_dash @ '' en-US '' @ em_dash @ '' Female'')"
proof -
  have "nice_label [''ShortName'' \<mapsto> PyStr ''en-US-JennyNeural'', ''Locale'' \<mapsto> PyStr ''en-US'',
                    ''Gender'' \<mapsto> PyStr ''Female'']
          = Inr (label_nocase ''en-US-JennyNeural'' ''en-US'' ''Female'')"
    by (rule nice_label_strings) (simp_all add: dict_get_def)
  moreover have "label_nocase ''en-US-JennyNeural'' ''en-US'' ''Female''
          = ''Jenny (Neural) '' @ em_dash @ '' en-US '' @ em_dash @ '' Female''"
    by (simp add: label_nocase_def last_segment_def lower_def lower_char_def suffix_to_prefix)
  ultimately show ?thesis using nice_label_strings by auto
qed

theorem nice_label_format_witness:
  "dict_get conrad ''ShortName'' (PyStr []) = PyStr ''de-DE-ConradNeural''
   \<and> dict_get conrad ''Locale'' (PyStr []) = PyStr ''de-DE''
   \<and> dict_get conrad ''Gender'' (PyStr []) = PyStr ''Male''
   \<and> nice_label conrad
       = Inr (''Conrad (Neural) '' @ em_dash @ '' de-DE '' @ em_dash @ '' Male'')"
proof -
  have h: "dict_get conrad ''ShortName'' (PyStr []) = PyStr ''de-DE-ConradNeural''
     \<and> dict_get conrad ''Locale'' (PyStr []) = PyStr ''de-DE''
     \<and> dict_get conrad ''Gender'' (PyStr []) = PyStr ''Male''"
    by (simp add: conrad_def dict_get_def)
  with nice_label_format
  have "nice_label conrad = Inr (label_nocase ''de-DE-ConradNeural'' ''de-DE'' ''Male'')"
    by blast
  moreover have "label_nocase ''de-DE-ConradNeural'' ''de-DE'' ''Male''
          = ''Conrad (Neural) '' @ em_dash @ '' de-DE '' @ em_dash @ '' Male''"
    by (simp add: label_nocase_def last_segment_def lower_def lower_char_def suffix_to_prefix)
  ultimately show ?thesis using h by simp
qed

section \<open>Properties of the default voice\<close>

lemma str_contains_iff: "str_contains sub s = (\<exists>pre post. s = pre @ sub @ post)"
proof (induction s)
  case Nil
  show ?case by auto
next
  case (Cons c cs)
  show ?case
  proof
    assume "str_contains sub (c # cs)"
    then consider "prefix sub (c # cs)" | "str_contains sub cs" by auto
    then show "\<exists>pre post. c # cs = pre @ sub @ post"
    proof cases
      case 1
      then obtain zs where "c # cs = sub @ zs" by (auto simp: prefix_def)
      then have "c # cs = [] @ sub @ zs" by simp
      then show ?thesis by blast
    next
      case 2
      with Cons.IH obtain pre post where "cs = pre @ sub @ post" by auto
      then have "c # cs = (c # pre) @ sub @ post" by simp
      then show ?thesis by blast
    qed
  next
    assume "\<exists>pre post. c # cs = pre @ sub @ post"
    then obtain pre post where eq: "c # cs = pre @ sub @ post" by auto
    show "str_contains sub (c # cs)"
    proof (cases pre)
      case Nil
      with eq have "prefix sub (c # cs)" by (simp add: prefix_def)
      then show ?thesis by simp
    next
      case (Cons p pre')
      with eq have "cs = pre' @ sub @ post" by simp
      with Cons.IH have "str_contains sub cs" by blast
      then show ?thesis by simp
    qed
  qed
qed

lemma first_key_containing_find:
  "first_key_containing name keys = find (\<lambda>k. mentions name k) keys"
  by (induction keys) (simp_all add: mentions_def str_contains_iff)

lemma first_key_Some:
  "first_key_containing name keys = Some l \<longleftrightarrow> is_first_with (mentions name) keys l"
  unfolding first_key_containing_find is_first_with_def find_Some_iff by auto

lemma first_key_None:
  "first_key_containing name keys = None \<longleftrightarrow> (\<forall>k \<in> set keys. \<not> mentions name k)"
  unfolding first_key_containing_find find_None_iff by auto

lemma example_voice_map_built:
  "build_voice_map [guy, aria, jenny] [] = Inr example_voice_map"
  by (simp add: nice_label_def guy_def aria_def jenny_def dict_get_def name_part_of_def
      index_last_def endswith_def lower_def lower_char_def drop_last6_def py_format_def Let_def
      example_voice_map_def)

text \<open>
  C6: on a non-empty mapping the selection of the default label never fails, and it
  returns the first label, in iteration order, whose lowercase form contains \<open>jenny\<close>;
  when no label does, the first whose lowercase form contains \<open>aria\<close>; otherwise the
  first label.
\<close>

theorem default_label_first:
  assumes "vm \<noteq> []"
  shows "\<exists>l. default_label vm = Inr l \<and>
           (if \<exists>k \<in> set (map fst vm). mentions ''jenny'' k
              then is_first_with (mentions ''jenny'') (map fst vm) l
            else if \<exists>k \<in> set (map fst vm). mentions ''aria'' k
              then is_first_with (mentions ''aria'') (map fst vm) l
            else l = fst (hd vm))"
proof (cases "first_key_containing ''jenny'' (map fst vm)")
  case (Some l)
  then have f: "is_first_with (mentions ''jenny'') (map fst vm) l" by (simp add: first_key_Some)
  then have "\<exists>k \<in> set (map fst vm). mentions ''jenny'' k"
    unfolding is_first_with_def by (metis nth_mem)
  with Some f show ?thesis by (simp add: default_label_def)
next
  case None
  then have nj: "\<not> (\<exists>k \<in> set (map fst vm). mentions ''jenny'' k)"
    by (simp add: first_key_None)
  show ?thesis
  proof (cases "first_key_containing ''aria'' (map fst vm)")
    case (Some l)
    then have f: "is_first_with (mentions ''aria'') (map fst vm) l" by (simp add: first_key_Some)
    then have "\<exists>k \<in> set (map fst vm). mentions ''aria'' k"
      unfolding is_first_with_def by (metis nth_mem)
    with None Some f nj show ?thesis by (simp add: default_label_def)
  next
    case None2: None
    then have na: "\<not> (\<exists>k \<in> set (map fst vm). mentions ''aria'' k)"
      by (simp add: first_key_None)
    from assms obtain p ps where "vm = p # ps" by (cases vm) auto
    with None None2 nj na show ?thesis by (simp add: default_label_def)
  qed
qed

theorem default_label_first_witness:
  "example_voice_map \<noteq> []
   \<and> default_label example_voice_map
       = Inr (''Jenny (Neural) '' @ em_dash @ '' en-US '' @ em_dash @ '' Female'')"
  using default_label_first [of example_voice_map]
  by (simp add: default_label_def example_voice_map_def em_dash_def lower_def lower_char_def)


section \<open>Properties of binary64 rounding\<close>

lemma floor_rat_numeral_div [simp]:
  "\<lfloor>(numeral a :: rat) / numeral b\<rfloor> = numeral a div numeral b"
  using floor_divide_of_int_eq [of "numeral a" "numeral b", where ?'a = rat] by simp

lemma floor_rat_neg_numeral_div [simp]:
  "\<lfloor>- ((numeral a :: rat) / numeral b)\<rfloor> = (- numeral a) div numeral b"
  using floor_divide_of_int_eq [of "- numeral a" "numeral b", where ?'a = rat] by simp

lemma ceiling_rat_numeral_div [simp]:
  "\<lceil>(numeral a :: rat) / numeral b\<rceil> = - ((- numeral a) div numeral b)"
  unfolding ceiling_def by simp

lemma bitlen_bounds:
  assumes "0 < n"
  shows "2 ^ (bitlen n - 1) \<le> n \<and> n < 2 ^ bitlen n"
  using assms
proof (induction n rule: less_induct)
  case (less n)
  show ?case
  proof (cases "n = 1")
    case True
    then show ?thesis by (simp add: bitlen.simps)
  next
    case False
    with less.prems have h: "0 < n div 2" "n div 2 < n" by auto
    from less.IH [OF h(2) h(1)]
    have ih: "2 ^ (bitlen (n div 2) - 1) \<le> n div 2" "n div 2 < 2 ^ bitlen (n div 2)" by auto
    have pos: "0 < bitlen (n div 2)" using h(1) by (subst bitlen.simps) simp
    have b: "bitlen n = Suc (bitlen (n div 2))" using less.prems by (subst bitlen.simps) simp
    from pos have e: "2 ^ bitlen (n div 2) = 2 * (2::nat) ^ (bitlen (n div 2) - 1)"
      by (cases "bitlen (n div 2)") auto
    from ih(1) have "2 * 2 ^ (bitlen (n div 2) - 1) \<le> n" by linarith
    moreover from ih(2) have "n < 2 * 2 ^ bitlen (n div 2)" by linarith
    ultimately show ?thesis by (simp add: b e)
  qed
qed

lemma exponent_of_correct:
  assumes "x \<noteq> 0"
  shows "2 powi exponent_of x \<le> \<bar>x\<bar> \<and> \<bar>x\<bar> < 2 powi (exponent_of x + 1)"
proof (cases "1 \<le> \<bar>x\<bar>")
  case True
  define n where "n = nat \<lfloor>\<bar>x\<bar>\<rfloor>"
  from True have n: "0 < n" by (simp add: n_def)
  have nx: "of_nat n \<le> \<bar>x\<bar>" "\<bar>x\<bar> < of_nat n + 1"
    using True by (simp_all add: n_def) linarith+
  from bitlen_bounds [OF n] have b: "2 ^ (bitlen n - 1) \<le> n" "n + 1 \<le> 2 ^ bitlen n" by auto
  from n have bp: "0 < bitlen n" by (subst bitlen.simps) simp
  have e: "exponent_of x = int (bitlen n - 1)"
    using True bp by (simp add: exponent_of_def Let_def n_def)
  have "(2::rat) ^ (bitlen n - 1) \<le> of_nat n"
    using b(1) by (metis of_nat_le_iff of_nat_numeral of_nat_power)
  with nx(1) have lo: "(2::rat) ^ (bitlen n - 1) \<le> \<bar>x\<bar>" by linarith
  have "(of_nat (n + 1) :: rat) \<le> of_nat (2 ^ bitlen n)"
    using b(2) unfolding of_nat_le_iff .
  then have "(of_nat n :: rat) + 1 \<le> 2 ^ bitlen n" by simp
  with nx(2) have "\<bar>x\<bar> < 2 ^ bitlen n" by linarith
  moreover have "(2::rat) powi exponent_of x = 2 ^ (bitlen n - 1)"
    unfolding e by (rule power_int_of_nat)
  moreover have "(2::rat) powi (exponent_of x + 1) = 2 ^ bitlen n"
  proof -
    have "exponent_of x + 1 = int (bitlen n)" using bp by (simp add: e)
    then show ?thesis by (simp only: power_int_of_nat)
  qed
  ultimately show ?thesis using lo by (simp only:)
next
  case False
  define a where "a = \<bar>x\<bar>"
  from assms False have a: "0 < a" "a < 1" by (simp_all add: a_def)
  define m where "m = nat (\<lceil>1 / a\<rceil> - 1)"
  from a have "1 < 1 / a" by simp
  then have c: "2 \<le> \<lceil>1 / a\<rceil>" by linarith
  then have m: "0 < m" by (simp add: m_def)
  have my: "of_nat m < 1 / a" "1 / a \<le> of_nat m + 1"
    using c by (simp_all add: m_def) linarith+
  from bitlen_bounds [OF m] have b: "2 ^ (bitlen m - 1) \<le> m" "m + 1 \<le> 2 ^ bitlen m" by auto
  from m have bp: "0 < bitlen m" by (subst bitlen.simps) simp
  have e: "exponent_of x = - int (bitlen m)"
    using False by (simp add: exponent_of_def Let_def m_def a_def)
  have "(of_nat (m + 1) :: rat) \<le> of_nat (2 ^ bitlen m)"
    using b(2) unfolding of_nat_le_iff .
  then have "(of_nat m :: rat) + 1 \<le> 2 ^ bitlen m" by simp
  with my(2) have "1 / a \<le> 2 ^ bitlen m" by linarith
  with a(1) have lo: "1 / 2 ^ bitlen m \<le> a"
    by (simp add: field_simps)
  have "(2::rat) ^ (bitlen m - 1) \<le> of_nat m"
    using b(1) by (metis of_nat_le_iff of_nat_numeral of_nat_power)
  with my(1) have "(2::rat) ^ (bitlen m - 1) < 1 / a" by linarith
  with a(1) have hi: "a < 1 / 2 ^ (bitlen m - 1)"
    by (simp add: field_simps)
  have "(2::rat) powi exponent_of x = 1 / 2 ^ bitlen m"
    unfolding e by (simp only: power_int_minus_divide power_int_of_nat)
  moreover have "(2::rat) powi (exponent_of x + 1) = 1 / 2 ^ (bitlen m - 1)"
  proof -
    have "exponent_of x + 1 = - int (bitlen m - 1)" using bp by (simp add: e)
    then show ?thesis by (simp only: power_int_minus_divide power_int_of_nat)
  qed
  ultimately show ?thesis
    using lo hi unfolding a_def by (simp only:)
qed

lemma round_half_even_err: "\<bar>of_int (round_half_even x) - x\<bar> \<le> 1 / 2"
proof -
  have "of_int \<lfloor>x\<rfloor> \<le> x" "x < of_int \<lfloor>x\<rfloor> + 1" by linarith+
  then show ?thesis
    by (auto simp: round_half_even_def Let_def abs_le_iff)
qed

lemma round_half_even_unique:
  assumes "\<bar>x - of_int n\<bar> < 1 / 2"
  shows "round_half_even x = n"
proof -
  have "\<bar>of_int (round_half_even x) - x\<bar> \<le> 1 / 2" by (rule round_half_even_err)
  with assms have "\<bar>(of_int (round_half_even x) :: rat) - of_int n\<bar> < 1" by linarith
  then have "\<bar>(of_int (round_half_even x - n) :: rat)\<bar> < of_int 1" by simp
  then have "\<bar>round_half_even x - n\<bar> < 1"
    unfolding of_int_abs [symmetric] of_int_less_iff .
  then show ?thesis by linarith
qed

lemma round_half_even_off_tie:
  assumes "\<bar>p - t\<bar> \<le> e" and "e < \<bar>frac t - 1 / 2\<bar>"
  shows "round_half_even p = round_half_even t"
proof -
  define m where "m = round_half_even t"
  have f: "0 \<le> frac t" "frac t < 1" by (simp_all add: frac_lt_1)
  have ft: "t = of_int \<lfloor>t\<rfloor> + frac t" by (simp add: frac_def)
  have "\<bar>t - of_int m\<bar> < 1 / 2 - e"
  proof (cases "frac t < 1 / 2")
    case True
    then have "m = \<lfloor>t\<rfloor>"
      by (simp add: m_def round_half_even_def Let_def frac_def)
    with ft have "t - of_int m = frac t" by simp
    with True assms(2) f show ?thesis by linarith
  next
    case False
    with assms(2) have g: "1 / 2 < frac t" using assms(1) by linarith
    then have "m = \<lfloor>t\<rfloor> + 1"
      by (simp add: m_def round_half_even_def Let_def frac_def)
    with ft have "t - of_int m = frac t - 1" by simp
    with g assms(2) f show ?thesis by linarith
  qed
  with assms(1) have "\<bar>p - of_int m\<bar> < 1 / 2" by linarith
  then show ?thesis unfolding m_def by (rule round_half_even_unique)
qed

lemma bitlen_bound: "n < 2 ^ k \<Longrightarrow> bitlen n \<le> k"
proof (induction k arbitrary: n)
  case 0
  then show ?case by (simp add: bitlen.simps)
next
  case (Suc k)
  then have "n div 2 < 2 ^ k" by simp
  with Suc.IH have "bitlen (n div 2) \<le> k" by blast
  then show ?case by (subst bitlen.simps) simp
qed

lemma exponent_of_le:
  assumes "\<bar>x\<bar> < 2 ^ Suc k"
  shows "exponent_of x \<le> int k"
proof (cases "1 \<le> \<bar>x\<bar>")
  case True
  have "\<lfloor>\<bar>x\<bar>\<rfloor> < 2 ^ Suc k"
    using assms by (simp add: floor_less_iff)
  then have "nat \<lfloor>\<bar>x\<bar>\<rfloor> < 2 ^ Suc k"
    by (simp add: nat_less_iff)
  then have "bitlen (nat \<lfloor>\<bar>x\<bar>\<rfloor>) \<le> Suc k" by (rule bitlen_bound)
  with True show ?thesis by (simp add: exponent_of_def Let_def)
next
  case False
  then show ?thesis by (simp add: exponent_of_def Let_def)
qed

lemma to_binary64_near:
  assumes "\<bar>x\<bar> < 2 ^ Suc k" and "k \<le> 1000"
  shows "\<exists>r. to_binary64 x = Some r \<and> \<bar>r - x\<bar> \<le> 2 ^ k / 2 ^ 53"
proof (cases "x = 0")
  case True
  then show ?thesis by (simp add: to_binary64_def)
next
  case False
  define e where "e = max (exponent_of x) (- 1022)"
  define q :: rat where "q = 2 powi (e - 52)"
  define r where "r = of_int (round_half_even (x / q)) * q"
  have e: "e \<le> int k"
    using exponent_of_le [OF assms(1)] by (simp add: e_def)
  have qpos: "0 < q" by (simp add: q_def)
  have "q \<le> 2 powi (int k - 52)"
    unfolding q_def using e by (intro power_int_increasing) auto
  also have "\<dots> = 2 ^ k / 2 ^ 52"
    by (simp add: power_int_diff)
  finally have q: "q \<le> 2 ^ k / 2 ^ 52" .
  have "r - x = (of_int (round_half_even (x / q)) - x / q) * q"
    using qpos by (simp add: r_def left_diff_distrib)
  then have "\<bar>r - x\<bar> = \<bar>of_int (round_half_even (x / q)) - x / q\<bar> * q"
    using qpos by (simp add: abs_mult)
  also have "\<dots> \<le> (1 / 2) * q"
    using round_half_even_err [of "x / q"] qpos by (intro mult_right_mono) auto
  also have "\<dots> \<le> (1 / 2) * (2 ^ k / 2 ^ 52)"
    using q by simp
  also have "\<dots> = 2 ^ k / 2 ^ 53" by simp
  finally have err: "\<bar>r - x\<bar> \<le> 2 ^ k / 2 ^ 53" .
  have "(2::rat) ^ k / 2 ^ 53 \<le> 2 ^ k" by (simp add: divide_le_eq)
  with err assms(1) have "\<bar>r\<bar> \<le> 2 ^ Suc k + 2 ^ k" by linarith
  also have "\<dots> \<le> 2 ^ (k + 2)" by simp
  also have "\<dots> \<le> (2::rat) ^ 1002"
    using assms(2) by (intro power_increasing) auto
  also have "\<dots> \<le> 2 ^ 52 * 2 ^ 971"
    unfolding power_add [symmetric] by (intro power_increasing) auto
  also have "\<dots> \<le> max_float"
    unfolding max_float_def by (intro mult_right_mono) auto
  finally have "\<not> max_float < \<bar>r\<bar>" by simp
  with False have "to_binary64 x = Some r"
    by (simp add: to_binary64_def Let_def e_def q_def r_def)
  with err show ?thesis by blast
qed


lemma scaled_near:
  assumes "\<bar>x\<bar> \<le> 1"
  shows "\<exists>q p. to_binary64 x = Some q \<and> to_binary64 (q * 50) = Some p
           \<and> \<bar>p - x * 50\<bar> \<le> 82 / 2 ^ 53"
proof -
  from assms have "\<bar>x\<bar> < 2 ^ Suc 0" by simp
  from to_binary64_near [OF this] obtain q where
    q: "to_binary64 x = Some q" and qe: "\<bar>q - x\<bar> \<le> 1 / 2 ^ 53" by auto
  have "(1::rat) / 2 ^ 53 \<le> 1 / 100" by simp
  with assms qe have "\<bar>q\<bar> \<le> 101 / 100" by linarith
  moreover have "\<bar>q * 50\<bar> = \<bar>q\<bar> * 50" by (simp add: abs_mult)
  moreover have "(2::rat) ^ Suc 5 = 64" by simp
  ultimately have "\<bar>q * 50\<bar> < 2 ^ Suc 5" by linarith
  from to_binary64_near [OF this] obtain p where
    p: "to_binary64 (q * 50) = Some p" and pe: "\<bar>p - q * 50\<bar> \<le> 2 ^ 5 / 2 ^ 53" by auto
  have "\<bar>q * 50 - x * 50\<bar> = \<bar>q - x\<bar> * 50"
  proof -
    have "q * 50 - x * 50 = (q - x) * 50" by (simp add: algebra_simps)
    then show ?thesis by (simp only: abs_mult abs_numeral)
  qed
  moreover have "(1::rat) / 2 ^ 53 * 50 + 2 ^ 5 / 2 ^ 53 = 82 / 2 ^ 53" by simp
  ultimately have "\<bar>p - x * 50\<bar> \<le> 82 / 2 ^ 53"
    using qe pe by linarith
  with q p show ?thesis by blast
qed

lemma rate_product_near:
  assumes "100 \<le> pct" and "pct \<le> 250"
  shows "\<exists>p. rate_product pct = Some p
           \<and> \<bar>p - of_int (2 * (pct - 175)) / 3\<bar> \<le> 82 / 2 ^ 53"
proof -
  define x :: rat where "x = of_int (pct - 175) / 75"
  have "\<bar>x\<bar> \<le> 1"
    using assms by (simp add: x_def abs_le_iff)
  from scaled_near [OF this] obtain q p where
    q: "to_binary64 x = Some q" and p: "to_binary64 (q * 50) = Some p"
    and pe: "\<bar>p - x * 50\<bar> \<le> 82 / 2 ^ 53"
    by blast
  have eq: "x * 50 = of_int (2 * (pct - 175)) / 3" by (simp add: x_def)
  have "rate_product pct = Some p"
    unfolding rate_product_def x_def [symmetric] by (simp add: q p)
  with pe show ?thesis unfolding eq by blast
qed

lemma volume_product_near:
  assumes "0 \<le> vol" and "vol \<le> 1"
  shows "\<exists>p. volume_product vol = Some p \<and> \<bar>p - (vol - 1) * 50\<bar> \<le> 82 / 2 ^ 53"
proof -
  from assms have "\<bar>vol - 1\<bar> \<le> 1" by simp
  from scaled_near [OF this] show ?thesis
    by (auto simp: volume_product_def)
qed

section \<open>Properties of the parameter mapper\<close>

lemma nearest_third:
  fixes k :: int
  shows "\<bar>of_int (2 * k) / 3 - (of_int ((2 * k + 1) div 3) :: rat)\<bar> \<le> 1 / 3"
proof -
  define n where "n = (2 * k + 1) div 3"
  have "\<bar>2 * k - 3 * n\<bar> \<le> 1" unfolding n_def by presburger
  then have "\<bar>(of_int (2 * k - 3 * n) :: rat)\<bar> \<le> of_int 1"
    unfolding of_int_abs [symmetric] of_int_le_iff .
  then have "\<bar>(of_int (2 * k) :: rat) - 3 * of_int n\<bar> \<le> 1" by simp
  then show ?thesis
    unfolding n_def [symmetric] by (simp add: abs_le_iff field_simps)
qed

text \<open>
  The exact value of the formula is a multiple of a third, never halfway between two
  integers, so every rule of rounding to the nearest integer gives the same result.
\<close>

lemma rate_formula_no_tie:
  fixes k :: int
  shows "round (of_int (2 * k) / 3 :: rat) = round_half_even (of_int (2 * k) / 3)"
proof -
  define t :: rat where "t = of_int (2 * k) / 3"
  define n where "n = (2 * k + 1) div 3"
  have tn: "\<bar>t - of_int n\<bar> \<le> 1 / 3"
    unfolding t_def n_def by (rule nearest_third)
  then have "\<bar>t - of_int n\<bar> < 1 / 2" by linarith
  then have "round_half_even t = n" by (rule round_half_even_unique)
  moreover from tn have "t - 1 / 2 < of_int n" "of_int n \<le> t + 1 / 2" by linarith+
  then have "round t = n" by (rule round_unique)
  ultimately show ?thesis unfolding t_def by simp
qed

lemma pct_to_edge_rate_value:
  assumes "100 \<le> pct" and "pct \<le> 250"
  shows "pct_to_edge_rate pct = Inr (signed_percent ((2 * pct - 349) div 3))"
    and "rateToServiceFormat pct = signed_percent ((2 * pct - 349) div 3)"
proof -
  define n where "n = (2 * (pct - 175) + 1) div 3"
  have n: "n = (2 * pct - 349) div 3" by (simp add: n_def algebra_simps)
  have nb: "- 50 \<le> n" "n \<le> 50" using assms unfolding n_def by presburger+
  define t :: rat where "t = of_int (2 * (pct - 175)) / 3"
  have tn: "\<bar>t - of_int n\<bar> \<le> 1 / 3"
    unfolding t_def n_def by (rule nearest_third)
  from rate_product_near [OF assms] obtain p where
    p: "rate_product pct = Some p" and pe: "\<bar>p - t\<bar> \<le> 82 / 2 ^ 53"
    by (auto simp: t_def)
  have "(82::rat) / 2 ^ 53 \<le> 1 / 100" by simp
  with tn pe have "\<bar>p - of_int n\<bar> < 1 / 2" by linarith
  then have rp: "round_half_even p = n" by (rule round_half_even_unique)
  from tn have "\<bar>t - of_int n\<bar> < 1 / 2" by linarith
  then have rt: "round_half_even t = n" by (rule round_half_even_unique)
  have "((of_int pct - 175) / 75) * 50 = t" by (simp add: t_def)
  with rt nb n show "rateToServiceFormat pct = signed_percent ((2 * pct - 349) div 3)"
    by (simp add: rateToServiceFormat_def)
  from p rp nb n show "pct_to_edge_rate pct = Inr (signed_percent ((2 * pct - 349) div 3))"
    by (simp add: pct_to_edge_rate_def Let_def)
qed

text \<open>
  C1: for a slider value from 100 to 250 the rate mapper returns the signed percentage
  that the specification's formula gives in exact arithmetic (the rounding of the two
  floating-point operations never changes the rounded integer), and its number lies
  between -50 and 50; 175 gives \<open>+0%\<close>, 100 gives \<open>-50%\<close> and 250 gives \<open>+50%\<close>.
\<close>

theorem pct_to_edge_rate_spec:
  "(\<forall>pct. 100 \<le> pct \<and> pct \<le> 250 \<longrightarrow>
      pct_to_edge_rate pct = Inr (rateToServiceFormat pct)
      \<and> (\<exists>n. - 50 \<le> n \<and> n \<le> 50 \<and> rateToServiceFormat pct = signed_percent n))
   \<and> pct_to_edge_rate 175 = Inr ''+0%''
   \<and> pct_to_edge_rate 100 = Inr ''-50%''
   \<and> pct_to_edge_rate 250 = Inr ''+50%''"
proof -
  have general: "pct_to_edge_rate pct = Inr (rateToServiceFormat pct)
      \<and> (\<exists>n. - 50 \<le> n \<and> n \<le> 50 \<and> rateToServiceFormat pct = signed_percent n)"
    if "100 \<le> pct" and "pct \<le> 250" for pct
  proof -
    have "- 50 \<le> (2 * pct - 349) div 3" "(2 * pct - 349) div 3 \<le> 50"
      using that by presburger+
    with pct_to_edge_rate_value [OF that] show ?thesis by auto
  qed
  have "pct_to_edge_rate 175 = Inr ''+0%''"
    using pct_to_edge_rate_value(1) [of 175]
    by (simp add: signed_percent_def signed_decimal_def decimal.simps)
  moreover have "pct_to_edge_rate 100 = Inr ''-50%''"
    using pct_to_edge_rate_value(1) [of 100]
    by (simp add: signed_percent_def signed_decimal_def decimal.simps)
  moreover have "pct_to_edge_rate 250 = Inr ''+50%''"
    using pct_to_edge_rate_value(1) [of 250]
    by (simp add: signed_percent_def signed_decimal_def decimal.simps)
  ultimately show ?thesis using general by blast
qed

theorem pct_to_edge_rate_spec_witness:
  "(100::int) \<le> 180 \<and> (180::int) \<le> 250
   \<and> pct_to_edge_rate 180 = Inr (rateToServiceFormat 180)
   \<and> rateToServiceFormat 180 = ''+3%''"
proof -
  have h: "(100::int) \<le> 180 \<and> (180::int) \<le> 250" by simp
  with pct_to_edge_rate_spec have "pct_to_edge_rate 180 = Inr (rateToServiceFormat 180)"
    by blast
  moreover have "rateToServiceFormat 180 = ''+3%''"
    by (simp add: rateToServiceFormat_def round_half_even_def Let_def signed_percent_def
        signed_decimal_def decimal.simps)
  ultimately show ?thesis using h by simp
qed

lemma volume_to_edge_bounds:
  assumes "0 \<le> vol" and "vol \<le> 1"
  shows "\<exists>p n. volume_product vol = Some p
           \<and> \<bar>p - (vol - 1) * 50\<bar> \<le> 1 / 2 ^ 46
           \<and> n = max (- 50) (min 0 (round_half_even p))
           \<and> volume_to_edge vol = Inr (signed_percent n)
           \<and> - 50 \<le> n \<and> n \<le> 0
           \<and> \<bar>of_int n - (vol - 1) * 50\<bar> \<le> 1 / 2 + 1 / 2 ^ 46
           \<and> (1 / 2 ^ 46 < \<bar>frac ((vol - 1) * 50) - 1 / 2\<bar>
                \<longrightarrow> volume_to_edge vol = Inr (volumeToServiceFormat vol))"
proof -
  from volume_product_near [OF assms] obtain p where
    p: "volume_product vol = Some p" and pe: "\<bar>p - (vol - 1) * 50\<bar> \<le> 82 / 2 ^ 53"
    by blast
  have "(82::rat) / 2 ^ 53 \<le> 1 / 2 ^ 46" by simp
  with pe have pe': "\<bar>p - (vol - 1) * 50\<bar> \<le> 1 / 2 ^ 46" by linarith
  define m where "m = round_half_even p"
  define n where "n = max (- 50) (min 0 m)"
  have me: "\<bar>of_int m - p\<bar> \<le> 1 / 2"
    unfolding m_def by (rule round_half_even_err)
  define t where "t = (vol - 1) * 50"
  have t: "- 50 \<le> t" "t \<le> 0" using assms by (simp_all add: t_def)
  have nb: "- 50 \<le> n" "n \<le> 0" by (simp_all add: n_def)
  have mt: "\<bar>of_int m - t\<bar> \<le> 1 / 2 + 1 / 2 ^ 46"
    using me pe' unfolding t_def by linarith
  have ne: "\<bar>of_int n - t\<bar> \<le> 1 / 2 + 1 / 2 ^ 46"
  proof (cases "m < - 50")
    case True
    then have "(of_int n :: rat) = - 50" by (simp add: n_def)
    moreover from True have "(of_int m :: rat) < - 50" by linarith
    ultimately show ?thesis using mt t by linarith
  next
    case False
    show ?thesis
    proof (cases "0 < m")
      case True
      then have "(of_int n :: rat) = 0" by (simp add: n_def)
      moreover from True have "(0 :: rat) < of_int m" by simp
      ultimately show ?thesis using mt t by linarith
    next
      case False
      with \<open>\<not> m < - 50\<close> have "n = m" by (simp add: n_def)
      with mt show ?thesis by simp
    qed
  qed
  have v: "volume_to_edge vol = Inr (signed_percent n)"
    using p by (simp add: volume_to_edge_def Let_def n_def m_def)
  have "volume_to_edge vol = Inr (volumeToServiceFormat vol)"
    if "1 / 2 ^ 46 < \<bar>frac t - 1 / 2\<bar>"
  proof -
    from pe' that have "round_half_even p = round_half_even t"
      unfolding t_def by (rule round_half_even_off_tie)
    then show ?thesis
      unfolding v by (simp add: volumeToServiceFormat_def n_def m_def t_def)
  qed
  with p pe' nb ne v show ?thesis
    unfolding t_def n_def m_def by blast
qed

text \<open>
  C2, the claim as written: the string is the one the formula gives. Computed exactly,
  the formula gives another string than the program at the float 0.05: the program
  computes the product in floating point, where it is rounded to -47.5, a tie that
  \<open>round\<close> resolves to -48, whereas the exact product lies above -47.5.
\<close>

theorem volume_to_edge_exact_counterexample:
  "(0::rat) \<le> 3602879701896397 / 72057594037927936
   \<and> (3602879701896397 / 72057594037927936 :: rat) \<le> 1
   \<and> volume_to_edge (3602879701896397 / 72057594037927936) = Inr ''-48%''
   \<and> volumeToServiceFormat (3602879701896397 / 72057594037927936) = ''-47%''"
proof -
  have "volume_to_edge (3602879701896397 / 72057594037927936) = Inr ''-48%''"
    by (simp add: volume_to_edge_def volume_product_def to_binary64_def exponent_of_def
        bitlen.simps round_half_even_def max_float_def Let_def signed_percent_def
        signed_decimal_def decimal.simps)
  moreover have "volumeToServiceFormat (3602879701896397 / 72057594037927936) = ''-47%''"
    by (simp add: volumeToServiceFormat_def round_half_even_def Let_def signed_percent_def
        signed_decimal_def decimal.simps)
  ultimately show ?thesis by simp
qed

text \<open>
  C2, amended: for a volume from 0 to 1 the volume mapper returns a signed percentage
  whose number lies between -50 and 0. The number is the floating-point product
  \<open>(vol - 1.0) * 50\<close>, which is finite and within \<open>1 / 2 ^ 46\<close> of the exact product,
  rounded to the nearest integer (ties to even) and clamped. It is within a half (and
  the same \<open>1 / 2 ^ 46\<close>) of the exact product, and the string is the one that the
  formula gives in exact arithmetic whenever the exact product is farther than
  \<open>1 / 2 ^ 46\<close> from every tie between two integers. 1.0 gives \<open>+0%\<close> and 0.0 gives
  \<open>-50%\<close>.
\<close>

theorem volume_to_edge_range:
  "(\<forall>vol. 0 \<le> vol \<and> vol \<le> 1 \<longrightarrow>
      (\<exists>p n. volume_product vol = Some p
           \<and> \<bar>p - (vol - 1) * 50\<bar> \<le> 1 / 2 ^ 46
           \<and> n = max (- 50) (min 0 (round_half_even p))
           \<and> volume_to_edge vol = Inr (signed_percent n)
           \<and> - 50 \<le> n \<and> n \<le> 0
           \<and> \<bar>of_int n - (vol - 1) * 50\<bar> \<le> 1 / 2 + 1 / 2 ^ 46
           \<and> (1 / 2 ^ 46 < \<bar>frac ((vol - 1) * 50) - 1 / 2\<bar>
                \<longrightarrow> volume_to_edge vol = Inr (volumeToServiceFormat vol))))
   \<and> volume_to_edge 1 = Inr ''+0%''
   \<and> volume_to_edge 0 = Inr ''-50%''"
proof -
  have "volume_to_edge 1 = Inr ''+0%''"
    by (simp add: volume_to_edge_def volume_product_def to_binary64_def
        round_half_even_def Let_def signed_percent_def signed_decimal_def decimal.simps)
  moreover have "volume_to_edge 0 = Inr ''-50%''"
    by (simp add: volume_to_edge_def volume_product_def to_binary64_def exponent_of_def
        bitlen.simps round_half_even_def max_float_def Let_def signed_percent_def
        signed_decimal_def decimal.simps)
  ultimately show ?thesis using volume_to_edge_bounds by blast
qed

theorem volume_to_edge_range_witness:
  "(0::rat) \<le> 1 / 2 \<and> (1 / 2 :: rat) \<le> 1
   \<and> (1::rat) / 2 ^ 46 < \<bar>frac ((1 / 2 - 1) * 50 :: rat) - 1 / 2\<bar>
   \<and> volume_to_edge (1 / 2) = Inr (volumeToServiceFormat (1 / 2))
   \<and> volumeToServiceFormat (1 / 2) = ''-25%''"
proof -
  have h: "(0::rat) \<le> 1 / 2 \<and> (1 / 2 :: rat) \<le> 1" by simp
  have g: "(1::rat) / 2 ^ 46 < \<bar>frac ((1 / 2 - 1) * 50 :: rat) - 1 / 2\<bar>"
    by (simp add: frac_def)
  from volume_to_edge_range h g
  have "volume_to_edge (1 / 2) = Inr (volumeToServiceFormat (1 / 2))" by blast
  moreover have "volumeToServiceFormat (1 / 2) = ''-25%''"
    by (simp add: volumeToServiceFormat_def round_half_even_def Let_def signed_percent_def
        signed_decimal_def decimal.simps)
  ultimately show ?thesis using h g by simp
qed

section \<open>Properties of the generate action\<close>

lemma try_body_trace:
  assumes "try_body env vm inp s = (out, s')" and "\<not> stop_requested s"
  shows "busy s' = busy s
         \<and> stop_requested s' = (out = Stopped)
         \<and> (\<exists>new. trace s' = trace s @ new \<and> (\<forall>(b, ev) \<in> set new. b = busy s))"
  using assms
  by (auto simp: try_body_def after_synthesis_def st_stop_def emit_def Let_def
      split: sum.splits if_splits option.splits)

lemma generate_action_busy:
  assumes "generate_action env vm inp s = (out, s')"
    and "\<not> busy s" and "\<not> stop_requested s"
  shows "busy s' = (out = Stopped \<and> strip (text_area inp) \<noteq> [])
         \<and> (\<exists>new. trace s' = trace s @ new \<and> (\<forall>(b, ev) \<in> set new. is_synthesize ev \<longrightarrow> b))"
proof (cases "strip (text_area inp) = []")
  case True
  with assms show ?thesis
    by (auto simp: generate_action_def st_stop_def emit_def)
next
  case False
  obtain out1 s1 where b: "try_body env vm inp (s\<lparr>busy := True\<rparr>) = (out1, s1)"
    by (cases "try_body env vm inp (s\<lparr>busy := True\<rparr>)") auto
  from assms(3) have "\<not> stop_requested (s\<lparr>busy := True\<rparr>)" by simp
  from try_body_trace [OF b this] obtain new where
    s1: "busy s1 = True" "stop_requested s1 = (out1 = Stopped)"
    and new: "trace s1 = trace s @ new" "\<forall>(b, ev) \<in> set new. b = True" by auto
  from new(2) have syn: "\<forall>(b, ev) \<in> set new. is_synthesize ev \<longrightarrow> b"
    by auto
  from assms(1,3) False b have r: "(out, s') =
      (let (final_out, s2) = set_busy False s1
       in (if final_out = Completed then out1 else final_out, s2))"
    by (simp add: generate_action_def set_busy_def try_finally_def)
  show ?thesis
  proof (cases "out1 = Stopped")
    case True
    with r s1 have "out = Stopped" "s' = s1" by (simp_all add: set_busy_def)
    with s1 new(1) syn False show ?thesis by auto
  next
    case False
    with r s1 have "out = out1" "s' = s1\<lparr>busy := False\<rparr>" by (simp_all add: set_busy_def)
    with False new(1) syn show ?thesis by auto
  qed
qed

text \<open>
  After a run in which the enabled button is pressed, the busy flag is set exactly when
  the run was stopped inside the \<open>try\<close> block, that is, by the size check; every call of
  the synthesis service is made while the flag is set.
\<close>

lemma busy_after_run:
  assumes "run_script env vm inp session = (out, s')"
    and "pressed inp" and "session \<noteq> Some True"
  shows "busy s' = (out = Stopped \<and> strip (text_area inp) \<noteq> [])
         \<and> (\<forall>(b, ev) \<in> set (synthesis_calls (trace s')). b = True)"
proof -
  define s where "s = \<lparr>busy = (case session of None \<Rightarrow> False | Some b \<Rightarrow> b),
                         stop_requested = False, trace = []\<rparr>"
  from assms(3) have nb: "\<not> busy s" by (auto simp: s_def split: option.splits)
  have ns: "\<not> stop_requested s" by (simp add: s_def)
  from nb assms(1,2) have "generate_action env vm inp s = (out, s')"
    by (simp add: run_script_def s_def Let_def)
  from generate_action_busy [OF this nb ns] have
    "busy s' = (out = Stopped \<and> strip (text_area inp) \<noteq> [])"
    "\<forall>(b, ev) \<in> set (trace s'). is_synthesize ev \<longrightarrow> b"
    by (auto simp: s_def)
  then show ?thesis
    by (auto simp: synthesis_calls_def)
qed

lemma ex_lookup: "voice_map_lookup example_voice_map (voice_choice hello_inputs) = Inr jenny"
  by (simp add: voice_map_lookup_def example_voice_map_def hello_inputs_def jenny_label_def
      em_dash_def)

lemma ex_strip: "strip (text_area hello_inputs) \<noteq> []" "strip (text_area blank_inputs) = []"
  by (simp_all add: strip_def hello_inputs_def blank_inputs_def isspace_def)

lemma ex_rate: "pct_to_edge_rate (rate_slider hello_inputs) = Inr ''+3%''"
  by (simp add: hello_inputs_def pct_to_edge_rate_def rate_product_def to_binary64_def
      exponent_of_def bitlen.simps round_half_even_def max_float_def Let_def signed_percent_def
      signed_decimal_def decimal.simps)

lemma ex_vol: "volume_to_edge (volume hello_inputs) = Inr ''+0%''"
  by (simp add: hello_inputs_def volume_to_edge_def volume_product_def to_binary64_def
      exponent_of_def bitlen.simps round_half_even_def max_float_def Let_def signed_percent_def
      signed_decimal_def decimal.simps)

text \<open>
  C7: when the text is empty once its white space is stripped, a press of the (enabled)
  button ends the run with the warning, before any call of the synthesis service: the
  only effect is the warning, made while the busy flag is false, and the flag is false
  after the run.
\<close>

theorem empty_text_stops:
  assumes "strip (text_area inp) = []" and "pressed inp" and "session \<noteq> Some True"
  shows "\<exists>s'. run_script env vm inp session = (Stopped, s')
           \<and> busy s' = False
           \<and> trace s' = [(False, Warning ''Please enter some text.'')]
           \<and> synthesis_calls (trace s') = []"
  using assms
  by (auto simp: run_script_def generate_action_def st_stop_def emit_def synthesis_calls_def
      Let_def split: option.splits)

theorem empty_text_stops_witness:
  "strip (text_area blank_inputs) = [] \<and> pressed blank_inputs \<and> None \<noteq> Some True
   \<and> run_script good_service example_voice_map blank_inputs None
       = (Stopped, \<lparr>busy = False, stop_requested = True,
                    trace = [(False, Warning ''Please enter some text.'')]\<rparr>)"
proof -
  have p: "pressed blank_inputs" by (simp add: blank_inputs_def hello_inputs_def)
  have n: "None \<noteq> Some True" by simp
  from empty_text_stops [OF ex_strip(2) p n, where env = good_service
      and vm = example_voice_map]
  obtain s' where "run_script good_service example_voice_map blank_inputs None = (Stopped, s')"
    and "busy s' = False" and "trace s' = [(False, Warning ''Please enter some text.'')]"
    by blast
  moreover have "stop_requested
      (snd (run_script good_service example_voice_map blank_inputs None))"
    using ex_strip(2) p
    by (simp add: run_script_def generate_action_def st_stop_def emit_def)
  ultimately have "run_script good_service example_voice_map blank_inputs None
       = (Stopped, \<lparr>busy = False, stop_requested = True,
                    trace = [(False, Warning ''Please enter some text.'')]\<rparr>)"
    by (cases s') simp
  with ex_strip(2) p n show ?thesis by simp
qed

text \<open>
  C8: when the synthesis call returns, fewer than 2000 bytes of audio end the run with the
  error message and nothing is offered for playback or download; 2000 bytes or more are
  announced as a success and handed to the player and to the download button.
\<close>

theorem short_audio_is_error:
  assumes "pressed inp" and "session \<noteq> Some True" and "strip (text_area inp) \<noteq> []"
    and "voice_map_lookup vm (voice_choice inp) = Inr v"
    and "pct_to_edge_rate (rate_slider inp) = Inr rate_str"
    and "volume_to_edge (volume inp) = Inr volume_str"
    and "tempdir_error env = None"
    and "synthesize env (text_area inp) (dict_get v ''ShortName'' PyNone) rate_str volume_str
           = Inr audio_bytes"
  shows "fst (run_script env vm inp session) =
           (if length audio_bytes < 2000 then Stopped else Completed)
         \<and> trace (snd (run_script env vm inp session)) =
           (if length audio_bytes < 2000
            then [(True, Synthesize (text_area inp) (dict_get v ''ShortName'' PyNone)
                           rate_str volume_str),
                  (True, Error ''Generated audio is empty. Try a different voice.'')]
            else [(True, Synthesize (text_area inp) (dict_get v ''ShortName'' PyNone)
                           rate_str volume_str),
                  (True, Success ''Audio generated successfully''),
                  (True, Audio audio_bytes),
                  (True, DownloadButton audio_bytes (filename inp))])"
proof -
  from assms(2) have "(case session of None \<Rightarrow> False | Some b \<Rightarrow> b) = False"
    by (auto split: option.splits)
  with assms show ?thesis
    by (simp add: run_script_def generate_action_def set_busy_def try_finally_def try_body_def
        after_synthesis_def st_stop_def emit_def Let_def)
qed

theorem short_audio_is_error_witness:
  "fst (run_script short_service example_voice_map hello_inputs None) = Stopped
   \<and> trace (snd (run_script short_service example_voice_map hello_inputs None)) =
       [(True, Synthesize (text_area hello_inputs) (PyStr ''en-US-JennyNeural'')
                 ''+3%'' ''+0%''),
        (True, Error ''Generated audio is empty. Try a different voice.'')]
   \<and> fst (run_script good_service example_voice_map hello_inputs None) = Completed
   \<and> trace (snd (run_script good_service example_voice_map hello_inputs None)) =
       [(True, Synthesize (text_area hello_inputs) (PyStr ''en-US-JennyNeural'')
                 ''+3%'' ''+0%''),
        (True, Success ''Audio generated successfully''),
        (True, Audio (replicate 2000 CHR ''a'')),
        (True, DownloadButton (replicate 2000 CHR ''a'') ''training_audio.mp3'')]"
proof -
  have p: "pressed hello_inputs" by (simp add: hello_inputs_def)
  have n: "None \<noteq> Some True" by simp
  have sn: "dict_get jenny ''ShortName'' PyNone = PyStr ''en-US-JennyNeural''"
    by (simp add: dict_get_def jenny_def)
  have t: "tempdir_error short_service = None" "tempdir_error good_service = None"
    by (simp_all add: short_service_def good_service_def)
  have s1: "synthesize short_service (text_area hello_inputs)
              (dict_get jenny ''ShortName'' PyNone) ''+3%'' ''+0%'' = Inr (replicate 1999 CHR ''a'')"
    by (simp add: short_service_def)
  have s2: "synthesize good_service (text_area hello_inputs)
              (dict_get jenny ''ShortName'' PyNone) ''+3%'' ''+0%'' = Inr (replicate 2000 CHR ''a'')"
    by (simp add: good_service_def)
  have f: "filename hello_inputs = ''training_audio.mp3''" by (simp add: hello_inputs_def)
  from short_audio_is_error [OF p n ex_strip(1) ex_lookup ex_rate ex_vol t(1) s1]
    short_audio_is_error [OF p n ex_strip(1) ex_lookup ex_rate ex_vol t(2) s2]
  show ?thesis by (simp add: sn f)
qed

text \<open>
  C9: the claim asks for the busy flag to be false after every generation, also after the
  one that the size check stops. There the program leaves it set. With 1999 bytes of
  audio the run is stopped by \<open>st.stop()\<close> inside the \<open>try\<close> block; the assignment in the
  \<open>finally\<close> block raises and stores nothing, the flag stays true, and in the next run
  the button is disabled, so that a press no longer starts a generation.
\<close>

theorem busy_flag_stuck_after_short_audio:
  "run_script short_service example_voice_map hello_inputs None =
     (Stopped,
      \<lparr>busy = True, stop_requested = True,
       trace = [(True, Synthesize (text_area hello_inputs) (PyStr ''en-US-JennyNeural'')
                         ''+3%'' ''+0%''),
                (True, Error ''Generated audio is empty. Try a different voice.'')]\<rparr>)
   \<and> run_script good_service example_voice_map hello_inputs (Some True) =
     (Completed, \<lparr>busy = True, stop_requested = False, trace = []\<rparr>)"
proof -
  have "run_script short_service example_voice_map hello_inputs None =
     (Stopped,
      \<lparr>busy = True, stop_requested = True,
       trace = [(True, Synthesize (text_area hello_inputs) (PyStr ''en-US-JennyNeural'')
                         ''+3%'' ''+0%''),
                (True, Error ''Generated audio is empty. Try a different voice.'')]\<rparr>)"
    using ex_strip(1) ex_lookup ex_rate ex_vol
    by (simp add: run_script_def generate_action_def set_busy_def try_finally_def try_body_def
        after_synthesis_def st_stop_def short_service_def emit_def Let_def dict_get_def
        jenny_def hello_inputs_def)
  moreover have "run_script good_service example_voice_map hello_inputs (Some True) =
     (Completed, \<lparr>busy = True, stop_requested = False, trace = []\<rparr>)"
    by (simp add: run_script_def)
  ultimately show ?thesis by simp
qed

end
